theory Spec2Isabelle
  imports Complex_Main
begin

section \<open>JavaScript numbers\<close>

text \<open>
  Every number of the viewer (coordinates, sizes, scale factors) is a JavaScript Number,
  an IEEE-754 binary64 value. A finite Number is modelled by the real it denotes, and
  each arithmetic operator computes the exact real result and rounds it to the nearest
  value with a 53-bit significand, ties to the even significand: \<open>rhe\<close> rounds a real
  to an integer half-to-even, \<open>expo v\<close> is the exponent of the last significand bit of
  \<open>v\<close>, and \<open>rnd v\<close> is \<open>v\<close> rounded. The exponent range of \<open>rnd\<close> is not
  bounded: it is the result of binary64 arithmetic for an exact result that is zero
  or normal (\<open>in_range\<close> below: magnitude from \<open>2^-1022\<close> to \<open>Number.MAX_VALUE\<close>),
  and not where binary64 underflows or overflows to Infinity; NaN operands lie outside
  the model as well. Pixel coordinates are far from both ends of the range, and the
  theorem on the round trip, which is stated for every Number, carries the range as
  a hypothesis. A division by zero yields a
  non-finite Number in JavaScript; \<open>fdiv\<close> is only meaningful for a divisor other than
  zero, and every theorem below that depends on a quotient establishes or assumes
  that the divisor is not zero.
\<close>

definition rhe :: "real \<Rightarrow> int" where
  "rhe m = (let f = \<lfloor>m\<rfloor>; d = m - of_int f in
     if d < 1 / 2 then f else if 1 / 2 < d then f + 1 else if even f then f else f + 1)"

definition expo :: "real \<Rightarrow> int" where
  "expo v = \<lfloor>log 2 \<bar>v\<bar>\<rfloor> - 52"

definition rnd :: "real \<Rightarrow> real" where
  "rnd v = (if v = 0 then 0 else of_int (rhe (v / 2 powi expo v)) * 2 powi expo v)"

definition fadd :: "real \<Rightarrow> real \<Rightarrow> real" where
  "fadd a b = rnd (a + b)"

definition fsub :: "real \<Rightarrow> real \<Rightarrow> real" where
  "fsub a b = rnd (a - b)"

definition fmul :: "real \<Rightarrow> real \<Rightarrow> real" where
  "fmul a b = rnd (a * b)"

definition fdiv :: "real \<Rightarrow> real \<Rightarrow> real" where
  "fdiv a b = rnd (a / b)"

text \<open>
  \<open>Number.MAX_VALUE\<close>, the least positive normal number, and the exact results on
  which binary64 arithmetic neither underflows nor overflows.
\<close>

definition maxNumber :: real where
  "maxNumber = (2 - 2 powi (- 52)) * 2 powi 1023"

definition minNormal :: real where
  "minNormal = 2 powi (- 1022)"

definition normal :: "real \<Rightarrow> bool" where
  "normal v = (minNormal \<le> \<bar>v\<bar> \<and> \<bar>v\<bar> \<le> maxNumber)"

definition in_range :: "real \<Rightarrow> bool" where
  "in_range v = (v = 0 \<or> normal v)"

text \<open>
  The fields \<open>a\<close> and scale factors \<open>s\<close> for which the product \<open>a * s\<close> and the
  quotient of the rounded product by \<open>s\<close> stay in that range: \<open>a\<close> is zero, or its
  magnitude lies between \<open>2^-1021\<close> and \<open>2^1023\<close> and the product is normal.
\<close>

definition roundtrip_range :: "real \<Rightarrow> real \<Rightarrow> bool" where
  "roundtrip_range a s =
     (a = 0 \<or> (2 * minNormal \<le> \<bar>a\<bar> \<and> \<bar>a\<bar> \<le> 2 powi 1023 \<and> normal (a * s)))"

text \<open>\<open>a || b\<close> on a property that holds a non-negative integer or is absent.\<close>

definition js_or :: "nat option \<Rightarrow> nat \<Rightarrow> nat" where
  "js_or v d = (case v of None \<Rightarrow> d | Some n \<Rightarrow> if n = 0 then d else n)"

text \<open>The result of \<open>parseInt\<close>: a number or NaN.\<close>

datatype jsnum = NaN | Num real

text \<open>
  \<open>box.category_id === catId\<close>: the left side is \<open>null\<close> (\<open>None\<close>), NaN or a number,
  the right side the result of \<open>parseInt\<close>. NaN is equal to nothing, itself included.
\<close>

fun strict_eq :: "jsnum option \<Rightarrow> jsnum \<Rightarrow> bool" where
  "strict_eq (Some (Num a)) (Num b) = (a = b)"
| "strict_eq _ _ = False"

text \<open>A string-valued state variable is truthy unless it is \<open>null\<close> or the empty string.\<close>

definition truthy :: "string option \<Rightarrow> bool" where
  "truthy v = (case v of None \<Rightarrow> False | Some s \<Rightarrow> s \<noteq> [])"

subsection \<open>Decimal strings\<close>

text \<open>
  \<open>toString\<close> of an integer-valued Number below \<open>10^21\<close> in magnitude is its decimal
  numeral; it is used on \<open>Date.now()\<close>, on array indices and on category ids.
\<close>

definition digit_char :: "nat \<Rightarrow> char" where
  "digit_char d = char_of (48 + d)"

fun digits :: "nat \<Rightarrow> string" where
  "digits n = (if n < 10 then [digit_char n] else digits (n div 10) @ [digit_char (n mod 10)])"

definition toString :: "int \<Rightarrow> string" where
  "toString k = (if k < 0 then CHR ''-'' # digits (nat (- k)) else digits (nat k))"

text \<open>
  \<open>parseInt(s, 10)\<close>: leading white space is skipped, an optional sign is read, then
  the longest run of decimal digits; with no digit the result is NaN. The white space
  modelled is the ASCII part of JavaScript's (tab, line feed, vertical tab, form feed,
  carriage return, space).
\<close>

definition is_space :: "char \<Rightarrow> bool" where
  "is_space c = ((of_char c :: nat) \<in> {9, 10, 11, 12, 13, 32})"

definition is_digit :: "char \<Rightarrow> bool" where
  "is_digit c = (48 \<le> (of_char c :: nat) \<and> (of_char c :: nat) \<le> 57)"

definition digits_value :: "string \<Rightarrow> nat" where
  "digits_value ds = foldl (\<lambda>a c. 10 * a + (of_char c - 48)) 0 ds"

definition parseInt :: "string \<Rightarrow> jsnum" where
  "parseInt s =
     (let t = dropWhile is_space s;
          neg = (t \<noteq> [] \<and> hd t = CHR ''-'');
          r = (if t \<noteq> [] \<and> (hd t = CHR ''-'' \<or> hd t = CHR ''+'') then tl t else t);
          ds = takeWhile is_digit r
      in if ds = [] then NaN
         else Num (rnd (if neg then - real (digits_value ds) else real (digits_value ds))))"

section \<open>Data model\<close>

text \<open>
  A box as the viewer stores it. The provisional box of a drawing gesture
  (\<open>currentBox\<close>) has no \<open>id\<close> yet; \<open>handleMouseUp\<close> adds it. \<open>fadeOut\<close> is absent
  (falsy) until the delete action sets it. The field \<open>id\<close> is written \<open>id'\<close>.
\<close>

record draft =
  x :: real
  y :: real
  width :: real
  height :: real
  category_id :: "jsnum option"
  isBackend :: bool
  file_name :: string

record box = draft +
  id' :: string
  fadeOut :: bool

text \<open>A box of the render pass: the stored box with its displayed-space geometry.\<close>

record scaled_box = box +
  scaledX :: real
  scaledY :: real
  scaledW :: real
  scaledH :: real

text \<open>
  What the viewer reads of the image element: \<open>naturalWidth\<close>, \<open>naturalHeight\<close>,
  \<open>clientWidth\<close>, \<open>clientHeight\<close> (non-negative integers in the DOM, \<open>None\<close> when the
  property is absent) and the origin of \<open>getBoundingClientRect()\<close>.
\<close>

record img_element =
  naturalWidth :: "nat option"
  naturalHeight :: "nat option"
  clientWidth :: "nat option"
  clientHeight :: "nat option"
  bounds_left :: real
  bounds_top :: real

record mouse_event =
  clientX :: real
  clientY :: real

record page_metadata =
  fileName :: string

text \<open>
  The state of \<open>SegmentationViewer\<close>: its state variables, and the props it reads
  and writes (\<open>allBoxes\<close> with \<open>setAllBoxes\<close>, \<open>filterCategory\<close>, \<open>imgRef.current\<close>,
  \<open>metadata\<close>). \<open>containerRef\<close> holds the origin of the container's bounding
  rectangle when the container is mounted. React runs each event handler to completion and re-renders before
  the next event, so a handler is a function from the state to the next state.
\<close>

record viewer =
  isDrawing :: bool
  currentBox :: "draft option"
  activeBoxId :: "string option"
  isResizing :: bool
  resizingCorner :: "string option"
  selectedBoxId :: "string option"
  editingBoxId :: "string option"
  isCategoryMenuOpen :: bool
  menuPosition :: "real \<times> real"
  imageLoaded :: bool
  scaleX :: real
  scaleY :: real
  allBoxes :: "box list"
  filterCategory :: string
  imgRef :: "img_element option"
  containerRef :: "(real \<times> real) option"
  metadata :: "page_metadata option"

text \<open>A prediction as the backend returns it (\<open>App\<close>, \<open>handleImageUpload\<close>).\<close>

record prediction =
  pred_image_id :: "int option"
  pred_category_id :: "jsnum option"
  pred_bbox :: "real \<times> real \<times> real \<times> real"
  pred_file_name :: string

section \<open>The viewer's operations\<close>

text \<open>\<open>scaledBoxes\<close>: natural-space geometry times the scale factors.\<close>

definition toDisplayed :: "real \<Rightarrow> real \<Rightarrow> box \<Rightarrow> scaled_box" where
  "toDisplayed sx sy b =
     \<lparr>x = x b, y = y b, width = width b, height = height b,
      category_id = category_id b, isBackend = isBackend b, file_name = file_name b,
      id' = id' b, fadeOut = fadeOut b,
      scaledX = fmul (x b) sx, scaledY = fmul (y b) sy,
      scaledW = fmul (width b) sx, scaledH = fmul (height b) sy\<rparr>"

definition scaledBoxes :: "viewer \<Rightarrow> scaled_box list" where
  "scaledBoxes st = map (toDisplayed (scaleX st) (scaleY st)) (allBoxes st)"

text \<open>The effect that computes the scale factors once the image has loaded.\<close>

definition scaleEffect :: "viewer \<Rightarrow> viewer" where
  "scaleEffect st =
     (case imgRef st of
        None \<Rightarrow> st
      | Some img \<Rightarrow>
          if \<not> imageLoaded st then st
          else
            let naturalW = js_or (naturalWidth img) 1;
                naturalH = js_or (naturalHeight img) 1;
                displayW = js_or (clientWidth img) naturalW;
                displayH = js_or (clientHeight img) naturalH
            in st\<lparr>scaleX := fdiv (real displayW) (real naturalW),
                  scaleY := fdiv (real displayH) (real naturalH)\<rparr>)"

text \<open>The effect that fills \<open>filteredBoxes\<close>, and the filter of the render pass.\<close>

definition filteredBoxes :: "viewer \<Rightarrow> box list" where
  "filteredBoxes st =
     (if filterCategory st = ''all'' then allBoxes st
      else let catId = parseInt (filterCategory st)
           in filter (\<lambda>b. strict_eq (category_id b) catId) (allBoxes st))"

definition renderedBoxes :: "viewer \<Rightarrow> scaled_box list" where
  "renderedBoxes st =
     filter (\<lambda>b. if filterCategory st = ''all'' then True
                  else strict_eq (category_id b) (parseInt (filterCategory st)))
       (scaledBoxes st)"

definition getEventCoordinates :: "viewer \<Rightarrow> mouse_event \<Rightarrow> real \<times> real" where
  "getEventCoordinates st e =
     (case imgRef st of
        None \<Rightarrow> (0, 0)
      | Some img \<Rightarrow>
          let displayX = fsub (clientX e) (bounds_left img);
              displayY = fsub (clientY e) (bounds_top img);
              realX = fdiv displayX (scaleX st);
              realY = fdiv displayY (scaleY st)
          in (realX, realY))"

definition handleMouseDown :: "viewer \<Rightarrow> mouse_event \<Rightarrow> viewer" where
  "handleMouseDown st e =
     (if truthy (selectedBoxId st) \<or> truthy (editingBoxId st)
      then st\<lparr>selectedBoxId := None, editingBoxId := None, isCategoryMenuOpen := False\<rparr>
      else
        let (realX, realY) = getEventCoordinates st e
        in st\<lparr>isDrawing := True,
              currentBox := Some
                \<lparr>x = realX, y = realY, width = 0, height = 0,
                 category_id =
                   (if filterCategory st = ''all'' then None
                    else Some (parseInt (filterCategory st))),
                 isBackend = False,
                 file_name =
                   (case metadata st of
                      None \<Rightarrow> ''default_filename''
                    | Some m \<Rightarrow> if fileName m \<noteq> [] then fileName m
                                else ''default_filename'')\<rparr>\<rparr>)"

text \<open>The updater of \<open>setCurrentBox\<close> in \<open>handleMouseMove\<close>: every field is computed
  from the previous provisional box.\<close>

definition drawTo :: "real \<Rightarrow> real \<Rightarrow> draft \<Rightarrow> draft" where
  "drawTo realX realY prev =
     prev\<lparr>width := \<bar>fsub realX (x prev)\<bar>,
          height := \<bar>fsub realY (y prev)\<bar>,
          x := (if realX < x prev then realX else x prev),
          y := (if realY < y prev then realY else y prev)\<rparr>"

text \<open>The function mapped over the store by \<open>handleMouseMove\<close> while resizing.\<close>

definition resizeBox :: "string option \<Rightarrow> string option \<Rightarrow> real \<Rightarrow> real \<Rightarrow> box \<Rightarrow> box" where
  "resizeBox active corner realX realY b =
     (if Some (id' b) = active then
        let isTopLeft = (corner = Some ''top-left'');
            newWidth = (if isTopLeft then fadd (width b) (fsub (x b) realX)
                        else \<bar>fsub realX (x b)\<bar>);
            newHeight = (if isTopLeft then fadd (height b) (fsub (y b) realY)
                         else \<bar>fsub realY (y b)\<bar>)
        in b\<lparr>x := (if isTopLeft then realX else x b),
             y := (if isTopLeft then realY else y b),
             width := max 1 newWidth,
             height := max 1 newHeight\<rparr>
      else b)"

definition handleMouseMove :: "viewer \<Rightarrow> mouse_event \<Rightarrow> viewer" where
  "handleMouseMove st e =
     (if \<not> isDrawing st \<and> \<not> isResizing st then st
      else
        let (realX, realY) = getEventCoordinates st e
        in if isDrawing st \<and> currentBox st \<noteq> None
           then st\<lparr>currentBox := map_option (drawTo realX realY) (currentBox st)\<rparr>
           else if isResizing st \<and> activeBoxId st \<noteq> None
           then st\<lparr>allBoxes :=
                     map (resizeBox (activeBoxId st) (resizingCorner st) realX realY)
                       (allBoxes st)\<rparr>
           else st)"

text \<open>\<open>{ ...currentBox, id: Date.now().toString() }\<close>\<close>

definition withId :: "draft \<Rightarrow> string \<Rightarrow> box" where
  "withId d i =
     \<lparr>x = x d, y = y d, width = width d, height = height d,
      category_id = category_id d, isBackend = isBackend d, file_name = file_name d,
      id' = i, fadeOut = False\<rparr>"

text \<open>\<open>handleMouseUp\<close>; \<open>now\<close> is the value of \<open>Date.now()\<close>.\<close>

definition handleMouseUp :: "nat \<Rightarrow> viewer \<Rightarrow> viewer" where
  "handleMouseUp now st =
     (let st1 =
        (case currentBox st of
           Some cur \<Rightarrow>
             if isDrawing st
             then st\<lparr>allBoxes := allBoxes st @ [withId cur (toString (int now))],
                     isDrawing := False, currentBox := None\<rparr>
             else st
         | None \<Rightarrow> st)
      in st1\<lparr>isResizing := False, activeBoxId := None, resizingCorner := None\<rparr>)"

definition handleResizeMouseDown :: "viewer \<Rightarrow> string \<Rightarrow> string \<Rightarrow> viewer" where
  "handleResizeMouseDown st boxId corner =
     st\<lparr>isResizing := True, activeBoxId := Some boxId, resizingCorner := Some corner\<rparr>"

definition handleBoxClick :: "viewer \<Rightarrow> mouse_event \<Rightarrow> string \<Rightarrow> viewer" where
  "handleBoxClick st e boxId =
     (if selectedBoxId st = Some boxId
      then st\<lparr>selectedBoxId := None, editingBoxId := None, isCategoryMenuOpen := False\<rparr>
      else
        let st1 = st\<lparr>selectedBoxId := Some boxId, editingBoxId := None\<rparr>
        in case containerRef st of
             None \<Rightarrow> st1
           | Some (bl, bt) \<Rightarrow>
               st1\<lparr>menuPosition := (fsub (clientX e) bl, fsub (clientY e) bt)\<rparr>)"

definition handleChangeCategory :: "viewer \<Rightarrow> string \<Rightarrow> real \<Rightarrow> viewer" where
  "handleChangeCategory st boxId newCategoryId =
     st\<lparr>allBoxes :=
          map (\<lambda>b. if id' b = boxId then b\<lparr>category_id := Some (Num newCategoryId)\<rparr> else b)
            (allBoxes st),
        isCategoryMenuOpen := False, selectedBoxId := None\<rparr>"

text \<open>The Edit button of the menu.\<close>

definition editClick :: "viewer \<Rightarrow> viewer" where
  "editClick st = st\<lparr>editingBoxId := selectedBoxId st, selectedBoxId := None\<rparr>"

text \<open>
  The Delete button: the click marks the selected box and starts a one-second timer;
  the timer's callback filters the marked boxes out of the store.
\<close>

definition deleteClick :: "viewer \<Rightarrow> viewer" where
  "deleteClick st =
     st\<lparr>allBoxes :=
          map (\<lambda>b. if Some (id' b) = selectedBoxId st then b\<lparr>fadeOut := True\<rparr> else b)
            (allBoxes st),
        selectedBoxId := None\<rparr>"

definition deleteTimeout :: "viewer \<Rightarrow> viewer" where
  "deleteTimeout st = st\<lparr>allBoxes := filter (\<lambda>b. \<not> fadeOut b) (allBoxes st)\<rparr>"

text \<open>
  \<open>processedPredictions\<close> of \<open>App\<close>: the boxes made from the backend's predictions.
  \<open>clock idx\<close> is the value of \<open>Date.now()\<close> when the element at \<open>idx\<close> is mapped.
\<close>

definition processPrediction :: "(nat \<Rightarrow> nat) \<Rightarrow> prediction \<times> nat \<Rightarrow> box" where
  "processPrediction clock item =
     (let pred = fst item; idx = snd item;
          (b0, b1, b2, b3) = pred_bbox pred
      in \<lparr>x = b0, y = b1, width = fsub b2 b0, height = fsub b3 b1,
          category_id = pred_category_id pred, isBackend = True,
          file_name = pred_file_name pred,
          id' = (case pred_image_id pred of
                   Some n \<Rightarrow>
                     if n \<noteq> 0 then ''pred-'' @ toString n
                     else toString (int (clock idx)) @ ''-'' @ toString (int idx)
                 | None \<Rightarrow> toString (int (clock idx)) @ ''-'' @ toString (int idx)),
          fadeOut = False\<rparr>)"

definition processedPredictions :: "(nat \<Rightarrow> nat) \<Rightarrow> prediction list \<Rightarrow> box list" where
  "processedPredictions clock preds =
     map (processPrediction clock) (zip preds [0..<length preds])"

section \<open>Initial state and example inputs\<close>

text \<open>
  The state after mounting: the initial values of the \<open>useState\<close> calls, with the
  container mounted at the origin of the viewport.
\<close>

definition initialViewer ::
  "box list \<Rightarrow> string \<Rightarrow> img_element option \<Rightarrow> page_metadata option \<Rightarrow> viewer" where
  "initialViewer boxes f img m =
     \<lparr>isDrawing = False, currentBox = None, activeBoxId = None, isResizing = False,
      resizingCorner = None, selectedBoxId = None, editingBoxId = None,
      isCategoryMenuOpen = False, menuPosition = (0, 0), imageLoaded = False,
      scaleX = 1, scaleY = 1,
      allBoxes = boxes, filterCategory = f, imgRef = img, containerRef = Some (0, 0),
      metadata = m\<rparr>"

text \<open>The state once the image has loaded and the scale effect has run.\<close>

definition loadedViewer :: "box list \<Rightarrow> string \<Rightarrow> img_element \<Rightarrow> viewer" where
  "loadedViewer boxes f img =
     scaleEffect ((initialViewer boxes f (Some img) None)\<lparr>imageLoaded := True\<rparr>)"

text \<open>
  Images: one shown at its natural size, one of natural width 1000 shown 300 wide
  (scale 0.3), one whose natural size is zero but which is laid out 500 by 300, and
  the image of the specification's scenario (2000 by 3000 shown as 500 by 750).
\<close>

definition page :: img_element where
  "page = \<lparr>naturalWidth = Some 1000, naturalHeight = Some 1000, clientWidth = Some 1000,
           clientHeight = Some 1000, bounds_left = 0, bounds_top = 0\<rparr>"

definition page300 :: img_element where
  "page300 = \<lparr>naturalWidth = Some 1000, naturalHeight = Some 1000, clientWidth = Some 300,
           clientHeight = Some 300, bounds_left = 0, bounds_top = 0\<rparr>"

definition brokenPage :: img_element where
  "brokenPage = \<lparr>naturalWidth = Some 0, naturalHeight = Some 0, clientWidth = Some 500,
           clientHeight = Some 300, bounds_left = 0, bounds_top = 0\<rparr>"

definition scenarioPage :: img_element where
  "scenarioPage = \<lparr>naturalWidth = Some 2000, naturalHeight = Some 3000,
           clientWidth = Some 500, clientHeight = Some 750,
           bounds_left = 32, bounds_top = 64\<rparr>"

definition mkBox :: "real \<Rightarrow> real \<Rightarrow> real \<Rightarrow> real \<Rightarrow> string \<Rightarrow> box" where
  "mkBox a b w h i =
     \<lparr>x = a, y = b, width = w, height = h, category_id = None, isBackend = True,
      file_name = ''page.png'', id' = i, fadeOut = False\<rparr>"

definition catBox :: "string \<Rightarrow> real \<Rightarrow> box" where
  "catBox i c = (mkBox 0 0 10 10 i)\<lparr>category_id := Some (Num c)\<rparr>"

text \<open>A top-left resize at scale 0.3: the pointer moves to the displayed point (1, 1).\<close>

definition resizeExample :: viewer where
  "resizeExample =
     handleMouseMove
       (handleResizeMouseDown (loadedViewer [mkBox 10 10 20 20 ''b''] ''all'' page300)
          ''b'' ''top-left'')
       \<lparr>clientX = 1, clientY = 1\<rparr>"

text \<open>
  Box 1 has been deleted less than a second ago (it is fading out, its timer has not
  fired) and box 2 has just been selected.
\<close>

definition pendingExample :: viewer where
  "pendingExample =
     handleBoxClick
       (deleteClick
          (handleBoxClick
             (loadedViewer [mkBox 0 0 10 10 ''1'', mkBox 20 20 10 10 ''2''] ''all'' page)
             \<lparr>clientX = 5, clientY = 5\<rparr> ''1''))
       \<lparr>clientX = 25, clientY = 25\<rparr> ''2''"

text \<open>A prediction for the page whose identifier in the database is 7.\<close>

definition pagePrediction :: "real \<times> real \<times> real \<times> real \<Rightarrow> prediction" where
  "pagePrediction b =
     \<lparr>pred_image_id = Some 7, pred_category_id = Some (Num 6), pred_bbox = b,
      pred_file_name = ''page.png''\<rparr>"

declare digits.simps [simp del]

section \<open>Facts about rounding\<close>

text \<open>
  A number that fits a 53-bit significand is not changed by rounding
  (\<open>rnd_representable\<close>), a positive number rounds to a positive number
  (\<open>rnd_pos\<close>), and \<open>rnd_eval\<close> computes \<open>rnd\<close> from the binade of its argument.
\<close>

lemma rhe_of_int: "rhe (of_int n) = n"
  by (simp add: rhe_def)

lemma rhe_ge_floor: "\<lfloor>m\<rfloor> \<le> rhe m"
  by (simp add: rhe_def Let_def)

lemma powr_powi2: "(2::real) powr of_int k = 2 powi k"
  by (rule powr_real_of_int') simp_all

lemma expo_eq:
  assumes "2 powi k \<le> \<bar>v\<bar>" and "\<bar>v\<bar> < 2 powi (k + 1)"
  shows "expo v = k - 52"
proof -
  have "(0::real) < 2 powi k" by simp
  then have pos: "0 < \<bar>v\<bar>" using assms(1) by linarith
  have "(2::real) powr of_int k \<le> \<bar>v\<bar>" "\<bar>v\<bar> < (2::real) powr of_int (k + 1)"
    using assms by (simp_all only: powr_powi2)
  then have "\<lfloor>log 2 \<bar>v\<bar>\<rfloor> = k"
  proof -
    have two: "1 < (2::real)" by simp
    assume "2 powr real_of_int k \<le> \<bar>v\<bar>" and "\<bar>v\<bar> < 2 powr real_of_int (k + 1)"
    then show ?thesis using floor_log_eq_powr_iff [OF pos two, of k] by blast
  qed
  then show ?thesis by (simp add: expo_def)
qed

lemma expo_bounds:
  assumes "v \<noteq> 0"
  shows "2 powi (expo v + 52) \<le> \<bar>v\<bar>" and "\<bar>v\<bar> < 2 powi (expo v + 53)"
proof -
  have pos: "0 < \<bar>v\<bar>" using assms by simp
  have "\<lfloor>log 2 \<bar>v\<bar>\<rfloor> = expo v + 52" by (simp add: expo_def)
  then have "(2::real) powr of_int (expo v + 52) \<le> \<bar>v\<bar> \<and> \<bar>v\<bar> < (2::real) powr of_int (expo v + 52 + 1)"
    using floor_log_eq_powr_iff [of "\<bar>v\<bar>" 2 "expo v + 52"] pos by force
  then have "2 powi (expo v + 52) \<le> \<bar>v\<bar> \<and> \<bar>v\<bar> < 2 powi (expo v + 52 + 1)"
    by (simp only: powr_powi2)
  then show "2 powi (expo v + 52) \<le> \<bar>v\<bar>" and "\<bar>v\<bar> < 2 powi (expo v + 53)"
    by (simp_all add: add.assoc)
qed

lemma rnd_eval:
  assumes "2 powi k \<le> \<bar>v\<bar>" and "\<bar>v\<bar> < 2 powi (k + 1)"
  shows "rnd v = of_int (rhe (v / 2 powi (k - 52))) * 2 powi (k - 52)"
proof -
  have "(0::real) < 2 powi k" by simp
  then have "0 < \<bar>v\<bar>" using assms(1) by linarith
  then have "v \<noteq> 0" by simp
  then show ?thesis by (simp add: rnd_def expo_eq [OF assms])
qed

lemma rnd_pos:
  assumes "0 < v"
  shows "0 < rnd v"
proof -
  have nz: "v \<noteq> 0" using assms by simp
  have "2 powi (expo v + 52) \<le> v" using expo_bounds(1) [OF nz] assms by simp
  then have "2 powi (expo v + 52) / 2 powi expo v \<le> v / 2 powi expo v"
    by (simp add: divide_right_mono)
  then have "(2::real) powi 52 \<le> v / 2 powi expo v"
    by (simp add: power_int_add)
  moreover have "(1::real) \<le> 2 powi 52" by simp
  ultimately have "(1::real) \<le> v / 2 powi expo v" by linarith
  then have "1 \<le> \<lfloor>v / 2 powi expo v\<rfloor>" by linarith
  then have "0 < rhe (v / 2 powi expo v)" using rhe_ge_floor [of "v / 2 powi expo v"] by linarith
  then show ?thesis using nz by (simp add: rnd_def)
qed

lemma rnd_representable:
  assumes "\<bar>m\<bar> < 2 ^ 53"
  shows "rnd (of_int m * 2 powi e) = of_int m * 2 powi e"
proof (cases "m = 0")
  case True
  then show ?thesis by (simp add: rnd_def)
next
  case False
  define v :: real where "v = of_int m * 2 powi e"
  have nz: "v \<noteq> 0" using False by (simp add: v_def)
  define k where "k = expo v"
  have "2 powi (k + 52) \<le> \<bar>v\<bar>" using expo_bounds(1) [OF nz] by (simp add: k_def)
  also have "\<bar>v\<bar> = of_int \<bar>m\<bar> * 2 powi e" by (simp add: v_def abs_mult)
  also have "\<dots> < 2 ^ 53 * 2 powi e"
  proof -
    have "(of_int \<bar>m\<bar> :: real) < 2 ^ 53" using assms by (metis of_int_less_iff of_int_numeral of_int_power)
    then show ?thesis by (simp add: mult_strict_right_mono)
  qed
  also have "\<dots> = 2 powi (53 + e)" by (simp add: power_int_add)
  finally have "(2::real) powi (k + 52) < 2 powi (53 + e)" .
  then have "k + 52 < 53 + e"
    using power_int_increasing [of "53 + e" "k + 52" "2::real"] by force
  then have le: "k \<le> e" by simp
  have "v / 2 powi k = of_int m * 2 powi (e - k)"
    by (simp add: v_def power_int_diff)
  also have "\<dots> = of_int (m * 2 ^ nat (e - k))"
    using le by (simp add: power_int_def)
  finally have "rhe (v / 2 powi k) = m * 2 ^ nat (e - k)" by (simp only: rhe_of_int)
  then have "rnd v = of_int (m * 2 ^ nat (e - k)) * 2 powi k"
    using nz by (simp add: rnd_def k_def)
  also have "\<dots> = of_int m * 2 powi (e - k) * 2 powi k" using le by (simp add: power_int_def)
  also have "\<dots> = v" by (simp add: v_def power_int_diff)
  finally show ?thesis by (simp add: v_def)
qed

lemma rnd_of_int: "\<bar>m\<bar> < 2 ^ 53 \<Longrightarrow> rnd (of_int m) = of_int m"
  using rnd_representable [of m 0] by simp

lemma rnd_of_nat: "n < 2 ^ 53 \<Longrightarrow> rnd (real n) = real n"
  using rnd_of_int [of "int n"] by (simp add: of_nat_less_numeral_power_cancel_iff)

lemma rnd_0 [simp]: "rnd 0 = 0"
  by (simp add: rnd_def)

lemma rnd_1 [simp]: "rnd 1 = 1"
  using rnd_of_int [of 1] by simp

lemma rnd_numeral [simp]: "(numeral n :: int) < 2 ^ 53 \<Longrightarrow> rnd (numeral n) = numeral n"
  using rnd_of_int [of "numeral n"] by simp

lemma rnd_neg_numeral [simp]:
  "(numeral n :: int) < 2 ^ 53 \<Longrightarrow> rnd (- numeral n) = - numeral n"
  using rnd_of_int [of "- numeral n"] by simp

lemma rnd_quarter [simp]: "rnd (1 / 4) = 1 / 4"
  using rnd_representable [of 1 "-2"] by simp

text \<open>
  Rounding changes a number by at most the fraction \<open>2^-53\<close> of its magnitude; hence
  the bounds on a product divided by its factor, and on the far edge of a box
  resized from its top-left handle.
\<close>

lemma rhe_error: "\<bar>of_int (rhe m) - m\<bar> \<le> 1 / 2"
  by (simp add: rhe_def Let_def)

lemma rnd_error: "\<bar>rnd v - v\<bar> \<le> \<bar>v\<bar> / 2 ^ 53"
proof (cases "v = 0")
  case True
  then show ?thesis by simp
next
  case False
  define e where "e = expo v"
  define m where "m = v / 2 powi e"
  have p: "(0::real) < 2 powi e" by simp
  have r: "rnd v = of_int (rhe m) * 2 powi e"
    using False by (simp add: rnd_def e_def m_def)
  have "rnd v - v = (of_int (rhe m) - m) * 2 powi e"
    unfolding r by (simp add: m_def algebra_simps)
  then have "\<bar>rnd v - v\<bar> = \<bar>of_int (rhe m) - m\<bar> * 2 powi e"
    by (simp add: abs_mult)
  also have "\<dots> \<le> (1 / 2) * 2 powi e"
    using rhe_error [of m] p by (simp add: mult_right_mono)
  also have "\<dots> = 2 powi (e + 52) / 2 ^ 53"
    by (simp add: power_int_add)
  also have "\<dots> \<le> \<bar>v\<bar> / 2 ^ 53"
    using expo_bounds(1) [OF False] by (simp add: e_def divide_right_mono)
  finally show ?thesis .
qed

lemma roundtrip_error:
  assumes "s \<noteq> 0"
  shows "\<bar>fdiv (fmul a s) s - a\<bar> \<le> \<bar>a\<bar> / 2 ^ 51"
proof -
  define u :: real where "u = 1 / 2 ^ 53"
  define p where "p = rnd (a * s)"
  define q where "q = rnd (p / s)"
  have u: "0 \<le> u" "u \<le> 1" by (simp_all add: u_def)
  have 1: "\<bar>p - a * s\<bar> \<le> \<bar>a * s\<bar> * u"
    using rnd_error [of "a * s"] by (simp add: p_def u_def)
  have 2: "\<bar>q - p / s\<bar> \<le> \<bar>p / s\<bar> * u"
    using rnd_error [of "p / s"] by (simp add: q_def u_def)
  have "\<bar>p / s - a\<bar> = \<bar>p - a * s\<bar> / \<bar>s\<bar>"
    using assms by (simp add: field_simps abs_divide [symmetric] del: abs_divide)
  also have "\<dots> \<le> (\<bar>a * s\<bar> * u) / \<bar>s\<bar>"
    using 1 by (simp add: divide_right_mono)
  also have "\<dots> = \<bar>a\<bar> * u"
    using assms by (simp add: abs_mult)
  finally have 3: "\<bar>p / s - a\<bar> \<le> \<bar>a\<bar> * u" .
  then have 4: "\<bar>p / s\<bar> \<le> \<bar>a\<bar> * (1 + u)"
    by (simp add: algebra_simps)
  have "\<bar>p / s\<bar> * u \<le> \<bar>a\<bar> * (1 + u) * u"
    using 4 u(1) by (rule mult_right_mono)
  also have "\<dots> \<le> \<bar>a\<bar> * 2 * u"
    using u by (simp add: mult_left_mono mult_right_mono)
  finally have 5: "\<bar>q - p / s\<bar> \<le> \<bar>a\<bar> * 2 * u" using 2 by linarith
  have "\<bar>q - a\<bar> \<le> \<bar>q - p / s\<bar> + \<bar>p / s - a\<bar>" by linarith
  also have "\<dots> \<le> \<bar>a\<bar> * 3 * u" using 3 5 by linarith
  also have "\<dots> \<le> \<bar>a\<bar> * 4 * u" using u(1) by (simp add: mult_left_mono mult_right_mono)
  also have "\<dots> = \<bar>a\<bar> / 2 ^ 51" by (simp add: u_def)
  finally show ?thesis by (simp add: q_def p_def fdiv_def fmul_def)
qed

lemma resize_edge_error:
  assumes "1 \<le> fadd w (fsub a p)"
  shows "\<bar>p + fadd w (fsub a p) - (a + w)\<bar> \<le> (2 * fadd w (fsub a p) + \<bar>a - p\<bar>) / 2 ^ 53"
proof -
  define u :: real where "u = 1 / 2 ^ 53"
  define d where "d = rnd (a - p)"
  define s where "s = w + d"
  define r where "r = rnd s"
  have r1: "1 \<le> r" using assms by (simp add: r_def s_def d_def fadd_def fsub_def)
  have 1: "\<bar>d - (a - p)\<bar> \<le> \<bar>a - p\<bar> * u"
    using rnd_error [of "a - p"] by (simp add: d_def u_def)
  have 2: "\<bar>r - s\<bar> \<le> \<bar>s\<bar> * u"
    using rnd_error [of s] by (simp add: r_def u_def)
  have "\<bar>s\<bar> * u \<le> \<bar>s\<bar> * (1 / 2)"
    by (rule mult_left_mono) (simp_all add: u_def)
  then have "\<bar>s\<bar> \<le> 2 * r" using 2 r1 by linarith
  then have "\<bar>s\<bar> * u \<le> (2 * r) * u"
    by (rule mult_right_mono) (simp add: u_def)
  then have 3: "\<bar>r - s\<bar> \<le> 2 * r * u" using 2 by linarith
  have "p + r - (a + w) = (r - s) + (d - (a - p))" by (simp add: s_def)
  then have "\<bar>p + r - (a + w)\<bar> \<le> \<bar>r - s\<bar> + \<bar>d - (a - p)\<bar>" by linarith
  also have "\<dots> \<le> 2 * r * u + \<bar>a - p\<bar> * u" using 1 3 by linarith
  also have "\<dots> = (2 * r + \<bar>a - p\<bar>) / 2 ^ 53" by (simp add: u_def algebra_simps)
  finally show ?thesis by (simp add: r_def s_def d_def fadd_def fsub_def)
qed

text \<open>
  Within the range of \<open>roundtrip_range\<close> the exact quotient of the round trip is zero
  or normal; and a number from 2 on does not round to 1.
\<close>

lemma quotient_near:
  assumes "s \<noteq> 0"
  shows "\<bar>rnd (a * s) / s - a\<bar> \<le> \<bar>a\<bar> / 2 ^ 53"
proof -
  have "\<bar>rnd (a * s) / s - a\<bar> = \<bar>rnd (a * s) - a * s\<bar> / \<bar>s\<bar>"
    using assms by (simp add: field_simps abs_divide [symmetric] del: abs_divide)
  also have "\<dots> \<le> (\<bar>a * s\<bar> / 2 ^ 53) / \<bar>s\<bar>"
    using rnd_error [of "a * s"] by (intro divide_right_mono) simp_all
  also have "\<dots> = \<bar>a\<bar> / 2 ^ 53"
    using assms by (simp add: abs_mult)
  finally show ?thesis .
qed

lemma quotient_in_range:
  assumes "s \<noteq> 0" and "roundtrip_range a s"
  shows "in_range (fmul a s / s)"
proof (cases "a = 0")
  case True
  then show ?thesis by (simp add: in_range_def fmul_def)
next
  case False
  define P :: real where "P = 2 powi 1023"
  define q where "q = rnd (a * s) / s"
  have P: "0 < P" by (simp add: P_def)
  have lo: "2 * minNormal \<le> \<bar>a\<bar>" and hi: "\<bar>a\<bar> \<le> P"
    using assms(2) False by (simp_all add: roundtrip_range_def P_def)
  have near: "\<bar>q - a\<bar> \<le> \<bar>a\<bar> / 2 ^ 53"
    using quotient_near [OF assms(1)] by (simp add: q_def)
  have "\<bar>a\<bar> / 2 ^ 53 \<le> \<bar>a\<bar> / 2" by (simp add: divide_left_mono)
  then have "\<bar>a\<bar> / 2 \<le> \<bar>q\<bar>" using near by linarith
  then have 1: "minNormal \<le> \<bar>q\<bar>" using lo by linarith
  have "\<bar>q\<bar> \<le> \<bar>a\<bar> + \<bar>a\<bar> / 2 ^ 53" using near by linarith
  also have "\<dots> \<le> P + P / 2 ^ 53" using hi by (simp add: add_mono divide_right_mono)
  also have "\<dots> = (1 + 1 / 2 ^ 53) * P" by (simp add: algebra_simps)
  also have "\<dots> \<le> (2 - 2 powi (- 52)) * P"
    using P by (intro mult_right_mono) (simp_all add: power_int_minus)
  finally have 2: "\<bar>q\<bar> \<le> maxNumber" by (simp add: maxNumber_def P_def)
  show ?thesis using 1 2 by (simp add: in_range_def normal_def q_def fmul_def)
qed

lemma rnd_ge_two:
  assumes "2 \<le> v"
  shows "2 \<le> rnd v"
proof -
  have nz: "v \<noteq> 0" and pos: "0 < v" using assms by simp_all
  define e where "e = expo v"
  have lt: "v < 2 powi (e + 53)" using expo_bounds(2) [OF nz] pos by (simp add: e_def)
  have "\<not> e + 53 \<le> 1"
  proof
    assume "e + 53 \<le> 1"
    then have "(2::real) powi (e + 53) \<le> 2 powi 1" by (intro power_int_increasing) simp_all
    then show False using lt assms by simp
  qed
  then have e: "1 \<le> e + 52" by simp
  have "2 powi (e + 52) \<le> v" using expo_bounds(1) [OF nz] pos by (simp add: e_def)
  then have "2 powi (e + 52) / 2 powi e \<le> v / 2 powi e" by (simp add: divide_right_mono)
  then have m: "(2::real) ^ 52 \<le> v / 2 powi e" by (simp add: power_int_add)
  have "(2::int) ^ 52 \<le> \<lfloor>v / 2 powi e\<rfloor>" using m by (simp add: le_floor_iff)
  then have "(2::int) ^ 52 \<le> rhe (v / 2 powi e)" using rhe_ge_floor [of "v / 2 powi e"] by linarith
  then have "(2::real) ^ 52 \<le> of_int (rhe (v / 2 powi e))"
    by (metis of_int_le_iff of_int_numeral of_int_power)
  then have "2 ^ 52 * 2 powi e \<le> real_of_int (rhe (v / 2 powi e)) * 2 powi e"
    by (intro mult_right_mono) simp_all
  then have "2 powi (e + 52) \<le> rnd v" using nz by (simp add: rnd_def e_def power_int_add mult.commute)
  moreover have "(2::real) powi 1 \<le> 2 powi (e + 52)" using e by (intro power_int_increasing) simp_all
  ultimately show ?thesis by simp
qed

lemma fdiv_one_eq_one: "fdiv (real n) 1 = 1 \<longleftrightarrow> n = 1"
proof
  assume a: "fdiv (real n) 1 = 1"
  show "n = 1"
  proof (rule ccontr)
    assume "n \<noteq> 1"
    then have "n = 0 \<or> 2 \<le> n" by linarith
    then show False
    proof
      assume "n = 0" then show False using a by (simp add: fdiv_def)
    next
      assume "2 \<le> n"
      then have "2 \<le> real n" by simp
      then have "2 \<le> rnd (real n)" by (rule rnd_ge_two)
      then show False using a by (simp add: fdiv_def)
    qed
  qed
next
  assume "n = 1" then show "fdiv (real n) 1 = 1" by (simp add: fdiv_def)
qed

lemma fdiv_pos: "0 < a \<Longrightarrow> 0 < b \<Longrightarrow> 0 < fdiv a b"
  by (simp add: fdiv_def rnd_pos)

lemma js_or_pos: "0 < d \<Longrightarrow> 0 < js_or v d"
  by (simp add: js_or_def split: option.split)

text \<open>
  The doubles of the examples below. \<open>300 / 1000\<close> is the double written 0.3;
  \<open>7 * 0.3\<close> is 2.1 and \<open>2.1 / 0.3\<close> is 7.000000000000001; \<open>1 / 0.3\<close> is
  3.3333333333333335, \<open>10 - 3.3333333333333335\<close> is 6.666666666666666,
  \<open>20 + 6.666666666666666\<close> is 26.666666666666664, and
  \<open>3.3333333333333335 + 26.666666666666664\<close> is 29.999999999999996.
\<close>

lemma scale_03: "fdiv 300 1000 = 5404319552844595 / 18014398509481984"
  unfolding fdiv_def using rnd_eval [of "-2" "300 / 1000"] by (simp add: rhe_def Let_def)

lemma mul_7_03:
  "fmul 7 (5404319552844595 / 18014398509481984) = 4728779608739021 / 2251799813685248"
  unfolding fmul_def using rnd_eval [of 1 "7 * (5404319552844595 / 18014398509481984)"]
  by (simp add: rhe_def Let_def)

lemma div_21_03:
  "fdiv (4728779608739021 / 2251799813685248) (5404319552844595 / 18014398509481984)
     = 7881299347898369 / 1125899906842624"
  unfolding fdiv_def
  using rnd_eval [of 2 "(4728779608739021 / 2251799813685248)
                          / (5404319552844595 / 18014398509481984)"]
  by (simp add: rhe_def Let_def)

lemma div_1_03:
  "fdiv 1 (5404319552844595 / 18014398509481984) = 7505999378950827 / 2251799813685248"
  unfolding fdiv_def using rnd_eval [of 1 "1 / (5404319552844595 / 18014398509481984)"]
  by (simp add: rhe_def Let_def)

lemma sub_10_rx:
  "fsub 10 (7505999378950827 / 2251799813685248) = 3752999689475413 / 562949953421312"
  unfolding fsub_def using rnd_eval [of 2 "10 - 7505999378950827 / 2251799813685248"]
  by (simp add: rhe_def Let_def)

lemma add_20_d:
  "fadd 20 (3752999689475413 / 562949953421312) = 3752999689475413 / 140737488355328"
  unfolding fadd_def using rnd_eval [of 4 "20 + 3752999689475413 / 562949953421312"]
  by (simp add: rhe_def Let_def)

lemma add_rx_w:
  "fadd (7505999378950827 / 2251799813685248) (3752999689475413 / 140737488355328)
     = 8444249301319679 / 281474976710656"
  unfolding fadd_def
  using rnd_eval [of 4 "7505999378950827 / 2251799813685248
                          + 3752999689475413 / 140737488355328"]
  by (simp add: rhe_def Let_def)

lemma fsub_1_0: "fsub 1 0 = 1"
  by (simp add: fsub_def)

section \<open>Facts about decimal strings\<close>

lemma digit_char_simps [simp]:
  "digit_char 0 = CHR ''0''" "digit_char 1 = CHR ''1''" "digit_char 2 = CHR ''2''"
  "digit_char 3 = CHR ''3''" "digit_char 4 = CHR ''4''" "digit_char 5 = CHR ''5''"
  "digit_char 6 = CHR ''6''" "digit_char 7 = CHR ''7''" "digit_char 8 = CHR ''8''"
  "digit_char 9 = CHR ''9''" "digit_char (Suc 0) = CHR ''1''"
  by code_simp+

lemma of_char_digit_char: "d < 10 \<Longrightarrow> (of_char (digit_char d) :: nat) = 48 + d"
  by (simp add: digit_char_def)

lemma is_digit_digit_char: "d < 10 \<Longrightarrow> is_digit (digit_char d)"
  by (simp add: is_digit_def of_char_digit_char)

lemma digits_not_Nil: "digits n \<noteq> []"
  by (subst digits.simps) simp

lemma digits_all_digit: "c \<in> set (digits n) \<Longrightarrow> is_digit c"
proof (induction n arbitrary: c rule: digits.induct)
  case (1 n)
  show ?case
  proof (cases "n < 10")
    case True
    then show ?thesis
      using "1.prems" by (subst (asm) digits.simps) (simp add: is_digit_digit_char)
  next
    case False
    then have "c \<in> set (digits (n div 10)) \<or> c = digit_char (n mod 10)"
      using "1.prems" by (subst (asm) digits.simps) auto
    then show ?thesis
      using "1.IH" [OF False] by (auto simp add: is_digit_digit_char)
  qed
qed

lemma digits_value_snoc:
  "digits_value (ds @ [c]) = 10 * digits_value ds + (of_char c - 48)"
  by (simp add: digits_value_def)

lemma digits_value_digits: "digits_value (digits n) = n"
proof (induction n rule: digits.induct)
  case (1 n)
  show ?case
  proof (cases "n < 10")
    case True
    then show ?thesis
      by (subst digits.simps) (simp add: digits_value_def of_char_digit_char)
  next
    case False
    then have "digits_value (digits n)
        = 10 * digits_value (digits (n div 10)) + (of_char (digit_char (n mod 10)) - 48)"
      by (subst digits.simps) (simp add: digits_value_snoc)
    then show ?thesis
      using "1.IH" [OF False] by (simp add: of_char_digit_char)
  qed
qed

lemma is_digit_hd_digits: "is_digit (hd (digits n))"
  using digits_all_digit [of "hd (digits n)" n] digits_not_Nil [of n] by simp

lemma digit_not_space: "is_digit c \<Longrightarrow> \<not> is_space c"
  by (auto simp add: is_digit_def is_space_def)

lemma digit_not_sign:
  "is_digit c \<Longrightarrow> c \<noteq> CHR ''-'' \<and> c \<noteq> CHR ''+'' \<and> c \<noteq> CHR ''a''"
  by (auto simp add: is_digit_def)

lemma parseInt_digits:
  assumes "n < 2 ^ 53"
  shows "parseInt (digits n) = Num (real n)"
proof -
  have d: "dropWhile is_space (digits n) = digits n"
    using is_digit_hd_digits [of n] digit_not_space by (simp add: dropWhile_eq_self_iff)
  have h: "hd (digits n) \<noteq> CHR ''-''" "hd (digits n) \<noteq> CHR ''+''"
    using is_digit_hd_digits [of n] digit_not_sign by blast+
  have t: "takeWhile is_digit (digits n) = digits n"
    using digits_all_digit by (simp add: takeWhile_eq_all_conv)
  show ?thesis
    using assms
    by (simp add: parseInt_def Let_def d h t digits_not_Nil digits_value_digits rnd_of_nat)
qed

lemma parseInt_minus_digits:
  assumes "n < 2 ^ 53"
  shows "parseInt (CHR ''-'' # digits n) = Num (- real n)"
proof -
  have s: "\<not> is_space CHR ''-''" by (simp add: is_space_def)
  have t: "takeWhile is_digit (digits n) = digits n"
    using digits_all_digit by (simp add: takeWhile_eq_all_conv)
  have r: "rnd (- real n) = - real n"
    using rnd_of_int [of "- int n"] assms by (simp add: of_nat_less_numeral_power_cancel_iff)
  show ?thesis
    by (simp add: parseInt_def Let_def s t digits_not_Nil digits_value_digits r)
qed

lemma parseInt_toString: "\<bar>k\<bar> < 2 ^ 53 \<Longrightarrow> parseInt (toString k) = Num (of_int k)"
proof (cases "k < 0")
  case True
  assume "\<bar>k\<bar> < 2 ^ 53"
  then have "nat (- k) < 2 ^ 53" using True by (simp add: nat_less_iff)
  then show ?thesis
    using True parseInt_minus_digits [of "nat (- k)"] by (simp add: toString_def)
next
  case False
  assume "\<bar>k\<bar> < 2 ^ 53"
  then have "nat k < 2 ^ 53" using False by (simp add: nat_less_iff)
  then show ?thesis
    using False parseInt_digits [of "nat k"] by (simp add: toString_def)
qed

lemma toString_not_all: "toString k \<noteq> ''all''"
proof
  assume a: "toString k = ''all''"
  show False
  proof (cases "k < 0")
    case True
    then show ?thesis using a by (simp add: toString_def)
  next
    case False
    then have "hd (digits (nat k)) = CHR ''a''" using a by (simp add: toString_def)
    then show ?thesis using is_digit_hd_digits [of "nat k"] digit_not_sign by metis
  qed
qed

lemma strict_eq_Num: "strict_eq c (Num r) = (c = Some (Num r))"
  by (cases "(c, Num r)" rule: strict_eq.cases) auto

section \<open>Facts about the handlers\<close>

lemma allBoxes_loadedViewer [simp]: "allBoxes (loadedViewer bs f img) = bs"
  by (simp add: loadedViewer_def scaleEffect_def initialViewer_def Let_def)

lemma mkBox_fields [simp]:
  "x (mkBox a b w h i) = a" "y (mkBox a b w h i) = b" "width (mkBox a b w h i) = w"
  "height (mkBox a b w h i) = h" "id' (mkBox a b w h i) = i" "\<not> fadeOut (mkBox a b w h i)"
  by (simp_all add: mkBox_def)

lemma allBoxes_handleResizeMouseDown [simp]:
  "allBoxes (handleResizeMouseDown st i c) = allBoxes st"
  by (simp add: handleResizeMouseDown_def)

lemma allBoxes_handleBoxClick [simp]: "allBoxes (handleBoxClick st e i) = allBoxes st"
  by (simp add: handleBoxClick_def Let_def split: option.split prod.split)

lemma loaded_page_scale:
  "scaleX (loadedViewer bs f page) = 1" "scaleY (loadedViewer bs f page) = 1"
  by (simp_all add: loadedViewer_def scaleEffect_def initialViewer_def page_def js_or_def
      Let_def fdiv_def)

lemma loaded300_scale:
  "scaleX (loadedViewer bs f page300) = 5404319552844595 / 18014398509481984"
  "scaleY (loadedViewer bs f page300) = 5404319552844595 / 18014398509481984"
  using scale_03
  by (simp_all add: loadedViewer_def scaleEffect_def initialViewer_def page300_def js_or_def
      Let_def)

lemma allBoxes_handleMouseUp:
  "allBoxes (handleMouseUp now st) =
     (case currentBox st of
        Some cur \<Rightarrow>
          if isDrawing st then allBoxes st @ [withId cur (toString (int now))]
          else allBoxes st
      | None \<Rightarrow> allBoxes st)"
  by (simp add: handleMouseUp_def Let_def split: option.split)

text \<open>
  With no box selected or being edited, a pointer-down followed at once by a
  pointer-up appends the provisional box, of width and height zero, to the store.
\<close>

lemma click_appends_box:
  assumes "\<not> truthy (selectedBoxId st)" and "\<not> truthy (editingBoxId st)"
  shows "\<exists>b. allBoxes (handleMouseUp now (handleMouseDown st e)) = allBoxes st @ [b]
            \<and> (x b, y b) = getEventCoordinates st e \<and> width b = 0 \<and> height b = 0
            \<and> id' b = toString (int now)"
  using assms
  by (simp add: allBoxes_handleMouseUp handleMouseDown_def withId_def split: prod.split)

text \<open>
  Each pointer move normalises against the corner stored by the previous move, not
  against the point where the gesture started.
\<close>

lemma drawTo_fields:
  "x (drawTo px py d) = min px (x d) \<and> y (drawTo px py d) = min py (y d)
 \<and> width (drawTo px py d) = \<bar>fsub px (x d)\<bar> \<and> height (drawTo px py d) = \<bar>fsub py (y d)\<bar>"
  by (simp add: drawTo_def min_def)

lemma allBoxes_resize:
  assumes "isResizing st" and "\<not> (isDrawing st \<and> currentBox st \<noteq> None)"
    and "activeBoxId st = Some a" and "getEventCoordinates st e = (px, py)"
  shows "allBoxes (handleMouseMove st e) =
           map (resizeBox (Some a) (resizingCorner st) px py) (allBoxes st)"
  using assms by (auto simp add: handleMouseMove_def)

lemma resizeExample_box:
  "allBoxes resizeExample =
     [(mkBox 10 10 20 20 ''b'')\<lparr>x := 7505999378950827 / 2251799813685248,
        y := 7505999378950827 / 2251799813685248,
        width := 3752999689475413 / 140737488355328,
        height := 3752999689475413 / 140737488355328\<rparr>]"
  by (simp add: resizeExample_def handleMouseMove_def handleResizeMouseDown_def
      getEventCoordinates_def loadedViewer_def scaleEffect_def initialViewer_def page300_def
      js_or_def Let_def scale_03 fsub_1_0 div_1_03 resizeBox_def mkBox_def sub_10_rx add_20_d)

lemma filter_marked:
  "filter (\<lambda>b. \<not> fadeOut b) (map (\<lambda>b. if P b then b\<lparr>fadeOut := True\<rparr> else b) bs)
     = filter (\<lambda>b. \<not> P b \<and> \<not> fadeOut b) bs"
  by (induction bs) auto

text \<open>What the Delete button leaves in the store once its timer has fired.\<close>

lemma allBoxes_delete:
  "allBoxes (deleteTimeout (deleteClick st)) =
     filter (\<lambda>b. Some (id' b) \<noteq> selectedBoxId st \<and> \<not> fadeOut b) (allBoxes st)"
  by (simp add: deleteTimeout_def deleteClick_def filter_marked)

lemma filter_distinct_remove:
  assumes "distinct (map f bs)" and "a \<in> f ` set bs"
  shows "\<exists>ys b zs. bs = ys @ b # zs \<and> f b = a \<and> filter (\<lambda>v. f v \<noteq> a) bs = ys @ zs"
proof -
  from assms(2) obtain b where b: "b \<in> set bs" "f b = a" by auto
  then obtain ys zs where s: "bs = ys @ b # zs" by (meson split_list)
  have "\<forall>v \<in> set ys \<union> set zs. f v \<noteq> a"
    using assms(1) b(2) s by (force simp add: image_iff)
  then have "filter (\<lambda>v. f v \<noteq> a) bs = ys @ zs"
    using s b(2) by (simp add: filter_id_conv)
  then show ?thesis using s b(2) by blast
qed

section \<open>The claims\<close>

subsection \<open>C1: a click without movement\<close>

text \<open>
  C1 says that a drawing gesture whose start and end points coincide commits no box:
  the store after the gesture is the store before it. \<open>handleMouseUp\<close> does not test
  the size of the provisional box. At scale 1, on the empty store, a pointer-down at
  (10, 20) followed at once by a pointer-up leaves one box in the store, at (10, 20),
  of width 0 and height 0.
\<close>

theorem click_failing_input:
  "map (\<lambda>b. (x b, y b, width b, height b))
     (allBoxes (handleMouseUp 1700000000000
        (handleMouseDown (initialViewer [] ''all'' (Some page) None)
           \<lparr>clientX = 10, clientY = 20\<rparr>)))
   = [(10, 20, 0, 0)]
 \<and> allBoxes (initialViewer [] ''all'' (Some page) None) = []"
  by (simp add: allBoxes_handleMouseUp handleMouseDown_def initialViewer_def truthy_def
      getEventCoordinates_def page_def fsub_def fdiv_def withId_def Let_def)

subsection \<open>C2: the committed box of a drag\<close>

text \<open>
  C2 says that the committed box spans the start point and the end point of the
  gesture, whatever the intermediate pointer moves. At scale 1, the gesture that starts
  at (400, 600), passes (300, 500) and ends at (200, 300) should commit the box at
  (200, 300) of width 200 and height 300; the box committed has width 100 and height
  200, the distance between the last two pointer positions: the first move replaces
  the start point by (300, 500) in the provisional box (\<open>drawTo_fields\<close>).
\<close>

theorem drag_left_failing_input:
  "map (\<lambda>b. (x b, y b, width b, height b))
     (allBoxes (handleMouseUp 1700000000000
        (handleMouseMove
           (handleMouseMove
              (handleMouseDown (initialViewer [] ''all'' (Some page) None)
                 \<lparr>clientX = 400, clientY = 600\<rparr>)
              \<lparr>clientX = 300, clientY = 500\<rparr>)
           \<lparr>clientX = 200, clientY = 300\<rparr>)))
   = [(200, 300, 100, 200)]"
  by (simp add: allBoxes_handleMouseUp handleMouseDown_def handleMouseMove_def
      initialViewer_def truthy_def getEventCoordinates_def page_def fsub_def fdiv_def
      drawTo_def withId_def Let_def)

subsection \<open>C3: the round trip through displayed space\<close>

text \<open>
  C3 says that multiplying a field by the scale factor and dividing the product by the
  same factor gives the field back exactly. Both operations round. With an image of
  natural width 1000 shown 300 wide the scale factor is the double 0.3, and the box
  at \<open>x = 7\<close> is displayed at 2.1 and comes back as 7.000000000000001.
\<close>

theorem roundtrip_counterexample:
  "0 < scaleX (loadedViewer [mkBox 7 7 20 20 ''b''] ''all'' page300) \<and>
   fdiv (scaledX (hd (scaledBoxes (loadedViewer [mkBox 7 7 20 20 ''b''] ''all'' page300))))
        (scaleX (loadedViewer [mkBox 7 7 20 20 ''b''] ''all'' page300))
     \<noteq> x (hd (allBoxes (loadedViewer [mkBox 7 7 20 20 ''b''] ''all'' page300)))"
  by (simp add: scaledBoxes_def loaded300_scale toDisplayed_def mkBox_def mul_7_03 div_21_03)

text \<open>
  C3, as the code has it: for positive scale factors and every field of the box that
  is in the range of \<open>roundtrip_range\<close> (no underflow, no overflow), the exact
  quotient of the round trip is zero or normal, the round trip gives the field back
  up to the rounding of the two operations, a relative error of at most \<open>2^-51\<close>,
  and it gives the field back exactly whenever the field is a double and its product
  with the scale factor is computed without rounding.
\<close>

theorem toDisplayed_roundtrip:
  assumes "0 < sx" and "0 < sy"
    and "roundtrip_range (x b) sx" and "roundtrip_range (y b) sy"
    and "roundtrip_range (width b) sx" and "roundtrip_range (height b) sy"
  shows "in_range (scaledX (toDisplayed sx sy b) / sx)
       \<and> in_range (scaledY (toDisplayed sx sy b) / sy)
       \<and> in_range (scaledW (toDisplayed sx sy b) / sx)
       \<and> in_range (scaledH (toDisplayed sx sy b) / sy)
       \<and> \<bar>fdiv (scaledX (toDisplayed sx sy b)) sx - x b\<bar> \<le> \<bar>x b\<bar> / 2 ^ 51
       \<and> \<bar>fdiv (scaledY (toDisplayed sx sy b)) sy - y b\<bar> \<le> \<bar>y b\<bar> / 2 ^ 51
       \<and> \<bar>fdiv (scaledW (toDisplayed sx sy b)) sx - width b\<bar> \<le> \<bar>width b\<bar> / 2 ^ 51
       \<and> \<bar>fdiv (scaledH (toDisplayed sx sy b)) sy - height b\<bar> \<le> \<bar>height b\<bar> / 2 ^ 51
       \<and> (rnd (x b) = x b \<and> rnd (x b * sx) = x b * sx \<longrightarrow>
            fdiv (scaledX (toDisplayed sx sy b)) sx = x b)
       \<and> (rnd (y b) = y b \<and> rnd (y b * sy) = y b * sy \<longrightarrow>
            fdiv (scaledY (toDisplayed sx sy b)) sy = y b)
       \<and> (rnd (width b) = width b \<and> rnd (width b * sx) = width b * sx \<longrightarrow>
            fdiv (scaledW (toDisplayed sx sy b)) sx = width b)
       \<and> (rnd (height b) = height b \<and> rnd (height b * sy) = height b * sy \<longrightarrow>
            fdiv (scaledH (toDisplayed sx sy b)) sy = height b)"
proof -
  have nz: "sx \<noteq> 0" "sy \<noteq> 0" using assms by simp_all
  have rng: "in_range (scaledX (toDisplayed sx sy b) / sx)"
    "in_range (scaledY (toDisplayed sx sy b) / sy)"
    "in_range (scaledW (toDisplayed sx sy b) / sx)"
    "in_range (scaledH (toDisplayed sx sy b) / sy)"
    using quotient_in_range [OF nz(1) assms(3)] quotient_in_range [OF nz(2) assms(4)]
      quotient_in_range [OF nz(1) assms(5)] quotient_in_range [OF nz(2) assms(6)]
    by (simp_all add: toDisplayed_def)
  have err: "\<bar>fdiv (scaledX (toDisplayed sx sy b)) sx - x b\<bar> \<le> \<bar>x b\<bar> / 2 ^ 51"
    "\<bar>fdiv (scaledY (toDisplayed sx sy b)) sy - y b\<bar> \<le> \<bar>y b\<bar> / 2 ^ 51"
    "\<bar>fdiv (scaledW (toDisplayed sx sy b)) sx - width b\<bar> \<le> \<bar>width b\<bar> / 2 ^ 51"
    "\<bar>fdiv (scaledH (toDisplayed sx sy b)) sy - height b\<bar> \<le> \<bar>height b\<bar> / 2 ^ 51"
    using roundtrip_error [OF nz(1)] roundtrip_error [OF nz(2)]
    by (simp_all add: toDisplayed_def)
  have exact: "rnd a = a \<and> rnd (a * s) = a * s \<longrightarrow> fdiv (fmul a s) s = a"
    if "s \<noteq> 0" for a s
    using that by (simp add: fmul_def fdiv_def)
  show ?thesis
    using rng err exact [OF nz(1)] exact [OF nz(2)] by (simp add: toDisplayed_def)
qed

theorem toDisplayed_roundtrip_witness:
  "fdiv (scaledX (toDisplayed (1 / 4) (1 / 4) (mkBox 400 600 200 300 ''b''))) (1 / 4) = 400
 \<and> fdiv (scaledY (toDisplayed (1 / 4) (1 / 4) (mkBox 400 600 200 300 ''b''))) (1 / 4) = 600
 \<and> fdiv (scaledW (toDisplayed (1 / 4) (1 / 4) (mkBox 400 600 200 300 ''b''))) (1 / 4) = 200
 \<and> fdiv (scaledH (toDisplayed (1 / 4) (1 / 4) (mkBox 400 600 200 300 ''b''))) (1 / 4) = 300"
proof -
  have r: "roundtrip_range a (1 / 4)" if "4 \<le> a" and "a \<le> 1024" for a :: real
  proof -
    have lo: "(2::real) powi (- 1022) \<le> 2 powi 0" and lo': "(2::real) powi (- 1021) \<le> 2 powi 0"
      and hi: "(2::real) powi 10 \<le> 2 powi 1023"
      by (intro power_int_increasing; simp)+
    have mx: "2 powi 1023 \<le> maxNumber"
      unfolding maxNumber_def by (simp add: power_int_minus)
    have "(2::real) * 2 powi (- 1022) = 2 powi (- 1021)"
      using power_int_add [of "2::real" 1 "- 1022"] by simp
    then show ?thesis
      using that lo lo' hi mx
      by (simp add: roundtrip_range_def normal_def minNormal_def)
  qed
  show ?thesis
    using toDisplayed_roundtrip [of "1 / 4" "1 / 4" "mkBox 400 600 200 300 ''b''"]
      r [of 400] r [of 600] r [of 200] r [of 300]
    by simp
qed

subsection \<open>C4: resizing\<close>

text \<open>
  C4 says that a resize from the top-left anchor never moves the bottom-right corner
  unless the minimum size of 1 is applied. At scale 0.3 the box at (10, 10) of size 20
  by 20 is resized from the top-left handle with the pointer at the displayed point
  (1, 1): the new width, 26.666666666666664, is above 1, and the right edge moves from
  30 to 29.999999999999996, both as the exact sum of the stored \<open>x\<close> and \<open>width\<close> and
  as the sum the program computes.
\<close>

theorem resize_top_left_counterexample:
  "1 < width (hd (allBoxes resizeExample)) \<and>
   x (hd (allBoxes resizeExample)) + width (hd (allBoxes resizeExample)) \<noteq> 10 + 20 \<and>
   fadd (x (hd (allBoxes resizeExample))) (width (hd (allBoxes resizeExample)))
     \<noteq> fadd 10 20"
  by (simp add: resizeExample_box mkBox_def add_rx_w) (simp add: fadd_def)

text \<open>
  C4, as the code has it: on a resize pointer-move, for every box whose id is the
  active id, the resulting width and height are at least 1; with any anchor other than
  the top-left one \<open>x\<close> and \<open>y\<close> are unchanged; with the top-left anchor the origin
  becomes the pointer's natural-space point, and on each axis where the minimum size
  is not applied the far edge (\<open>x + width\<close>, \<open>y + height\<close>) moves by no more than
  the rounding of the subtraction and of the addition, the fraction \<open>2^-53\<close> of twice
  the new size plus the distance moved; it is unchanged whenever neither operation
  rounds.
\<close>

theorem resize_anchor:
  assumes "isResizing st" and "\<not> (isDrawing st \<and> currentBox st \<noteq> None)"
    and "activeBoxId st = Some a" and "getEventCoordinates st e = (px, py)"
    and "i < length (allBoxes st)" and "id' (allBoxes st ! i) = a"
  shows "1 \<le> width (allBoxes (handleMouseMove st e) ! i)
       \<and> 1 \<le> height (allBoxes (handleMouseMove st e) ! i)
       \<and> (resizingCorner st \<noteq> Some ''top-left'' \<longrightarrow>
            x (allBoxes (handleMouseMove st e) ! i) = x (allBoxes st ! i)
          \<and> y (allBoxes (handleMouseMove st e) ! i) = y (allBoxes st ! i))
       \<and> (resizingCorner st = Some ''top-left'' \<longrightarrow>
            x (allBoxes (handleMouseMove st e) ! i) = px
          \<and> y (allBoxes (handleMouseMove st e) ! i) = py
          \<and> (1 \<le> fadd (width (allBoxes st ! i)) (fsub (x (allBoxes st ! i)) px) \<longrightarrow>
               \<bar>x (allBoxes (handleMouseMove st e) ! i)
                  + width (allBoxes (handleMouseMove st e) ! i)
                  - (x (allBoxes st ! i) + width (allBoxes st ! i))\<bar>
                 \<le> (2 * width (allBoxes (handleMouseMove st e) ! i)
                      + \<bar>x (allBoxes st ! i) - px\<bar>) / 2 ^ 53)
          \<and> (1 \<le> fadd (height (allBoxes st ! i)) (fsub (y (allBoxes st ! i)) py) \<longrightarrow>
               \<bar>y (allBoxes (handleMouseMove st e) ! i)
                  + height (allBoxes (handleMouseMove st e) ! i)
                  - (y (allBoxes st ! i) + height (allBoxes st ! i))\<bar>
                 \<le> (2 * height (allBoxes (handleMouseMove st e) ! i)
                      + \<bar>y (allBoxes st ! i) - py\<bar>) / 2 ^ 53)
          \<and> (rnd (x (allBoxes st ! i) - px) = x (allBoxes st ! i) - px
             \<and> rnd (width (allBoxes st ! i) + (x (allBoxes st ! i) - px))
                 = width (allBoxes st ! i) + (x (allBoxes st ! i) - px)
             \<and> 1 \<le> width (allBoxes st ! i) + (x (allBoxes st ! i) - px) \<longrightarrow>
               x (allBoxes (handleMouseMove st e) ! i)
                 + width (allBoxes (handleMouseMove st e) ! i)
                 = x (allBoxes st ! i) + width (allBoxes st ! i))
          \<and> (rnd (y (allBoxes st ! i) - py) = y (allBoxes st ! i) - py
             \<and> rnd (height (allBoxes st ! i) + (y (allBoxes st ! i) - py))
                 = height (allBoxes st ! i) + (y (allBoxes st ! i) - py)
             \<and> 1 \<le> height (allBoxes st ! i) + (y (allBoxes st ! i) - py) \<longrightarrow>
               y (allBoxes (handleMouseMove st e) ! i)
                 + height (allBoxes (handleMouseMove st e) ! i)
                 = y (allBoxes st ! i) + height (allBoxes st ! i)))"
proof -
  have "allBoxes (handleMouseMove st e) ! i
          = resizeBox (Some a) (resizingCorner st) px py (allBoxes st ! i)"
    using allBoxes_resize [OF assms(1-4)] assms(5) by simp
  then have b: "allBoxes (handleMouseMove st e) ! i
          = (allBoxes st ! i)
              \<lparr>x := (if resizingCorner st = Some ''top-left'' then px else x (allBoxes st ! i)),
               y := (if resizingCorner st = Some ''top-left'' then py else y (allBoxes st ! i)),
               width := max 1 (if resizingCorner st = Some ''top-left''
                               then fadd (width (allBoxes st ! i)) (fsub (x (allBoxes st ! i)) px)
                               else \<bar>fsub px (x (allBoxes st ! i))\<bar>),
               height := max 1 (if resizingCorner st = Some ''top-left''
                                then fadd (height (allBoxes st ! i)) (fsub (y (allBoxes st ! i)) py)
                                else \<bar>fsub py (y (allBoxes st ! i))\<bar>)\<rparr>"
    using assms(6) by (simp add: resizeBox_def Let_def)
  have edge: "1 \<le> fadd w (fsub c p) \<longrightarrow>
      \<bar>p + max 1 (fadd w (fsub c p)) - (c + w)\<bar>
        \<le> (2 * max 1 (fadd w (fsub c p)) + \<bar>c - p\<bar>) / 2 ^ 53" for w c p
    using resize_edge_error [of w c p] by (simp add: max_def)
  have exact: "rnd (c - p) = c - p \<and> rnd (w + (c - p)) = w + (c - p) \<and> 1 \<le> w + (c - p)
      \<longrightarrow> p + max 1 (fadd w (fsub c p)) = c + w" for w c p
    by (simp add: fadd_def fsub_def)
  show ?thesis
    unfolding b
    using edge [of "width (allBoxes st ! i)" "x (allBoxes st ! i)" px]
      edge [of "height (allBoxes st ! i)" "y (allBoxes st ! i)" py]
      exact [of "x (allBoxes st ! i)" px "width (allBoxes st ! i)"]
      exact [of "y (allBoxes st ! i)" py "height (allBoxes st ! i)"]
    by simp
qed

theorem resize_anchor_witness:
  "x (allBoxes (handleMouseMove
        (handleResizeMouseDown (loadedViewer [mkBox 10 10 20 20 ''b''] ''all'' page)
           ''b'' ''top-left'') \<lparr>clientX = 5, clientY = 6\<rparr>) ! 0) = 5
 \<and> y (allBoxes (handleMouseMove
        (handleResizeMouseDown (loadedViewer [mkBox 10 10 20 20 ''b''] ''all'' page)
           ''b'' ''top-left'') \<lparr>clientX = 5, clientY = 6\<rparr>) ! 0) = 6
 \<and> 1 \<le> width (allBoxes (handleMouseMove
        (handleResizeMouseDown (loadedViewer [mkBox 10 10 20 20 ''b''] ''all'' page)
           ''b'' ''top-left'') \<lparr>clientX = 5, clientY = 6\<rparr>) ! 0)
 \<and> x (allBoxes (handleMouseMove
        (handleResizeMouseDown (loadedViewer [mkBox 10 10 20 20 ''b''] ''all'' page)
           ''b'' ''top-left'') \<lparr>clientX = 5, clientY = 6\<rparr>) ! 0)
   + width (allBoxes (handleMouseMove
        (handleResizeMouseDown (loadedViewer [mkBox 10 10 20 20 ''b''] ''all'' page)
           ''b'' ''top-left'') \<lparr>clientX = 5, clientY = 6\<rparr>) ! 0) = 30
 \<and> y (allBoxes (handleMouseMove
        (handleResizeMouseDown (loadedViewer [mkBox 10 10 20 20 ''b''] ''all'' page)
           ''b'' ''top-left'') \<lparr>clientX = 5, clientY = 6\<rparr>) ! 0)
   + height (allBoxes (handleMouseMove
        (handleResizeMouseDown (loadedViewer [mkBox 10 10 20 20 ''b''] ''all'' page)
           ''b'' ''top-left'') \<lparr>clientX = 5, clientY = 6\<rparr>) ! 0) = 30"
proof -
  let ?st = "handleResizeMouseDown (loadedViewer [mkBox 10 10 20 20 ''b''] ''all'' page)
               ''b'' ''top-left''"
  let ?e = "\<lparr>clientX = 5, clientY = 6\<rparr>"
  have h1: "isResizing ?st" and h2: "\<not> (isDrawing ?st \<and> currentBox ?st \<noteq> None)"
    and h3: "activeBoxId ?st = Some ''b''"
    by (simp_all add: handleResizeMouseDown_def loadedViewer_def scaleEffect_def
        initialViewer_def Let_def)
  have sc: "scaleX ?st = 1" "scaleY ?st = 1" "imgRef ?st = Some page"
    using loaded_page_scale [of "[mkBox 10 10 20 20 ''b'']" "''all''"]
    by (simp_all add: handleResizeMouseDown_def)
       (simp add: loadedViewer_def scaleEffect_def initialViewer_def Let_def)
  have pg: "bounds_left page = 0" "bounds_top page = 0"
    by (simp_all add: page_def)
  have h4: "getEventCoordinates ?st ?e = (5, 6)"
    by (simp add: getEventCoordinates_def sc pg fsub_def fdiv_def)
  have h5: "0 < length (allBoxes ?st)" and h6: "id' (allBoxes ?st ! 0) = ''b''"
    by simp_all
  have c: "resizingCorner ?st = Some ''top-left''"
    by (simp add: handleResizeMouseDown_def)
  show ?thesis
    using resize_anchor [OF h1 h2 h3 h4 h5 h6]
    by (simp add: c)
qed

subsection \<open>C5: the category filter\<close>

text \<open>
  C5: with the filter \<open>all\<close> the effect and the render pass keep every box, unchanged
  and in order; with the filter set to the decimal string of a category id \<open>k\<close> (the
  legend stores \<open>cat.id.toString()\<close>) they keep exactly the boxes whose category id
  is \<open>k\<close>, in order. The integer \<open>k\<close> is any integer that a Number holds exactly.
\<close>

theorem deriveVisible:
  "filteredBoxes (st\<lparr>filterCategory := ''all''\<rparr>) = allBoxes st
 \<and> renderedBoxes (st\<lparr>filterCategory := ''all''\<rparr>) = scaledBoxes st
 \<and> (\<bar>k\<bar> < 2 ^ 53 \<longrightarrow>
      filteredBoxes (st\<lparr>filterCategory := toString k\<rparr>)
        = filter (\<lambda>b. category_id b = Some (Num (of_int k))) (allBoxes st)
    \<and> renderedBoxes (st\<lparr>filterCategory := toString k\<rparr>)
        = map (toDisplayed (scaleX st) (scaleY st))
            (filter (\<lambda>b. category_id b = Some (Num (of_int k))) (allBoxes st)))"
proof -
  have c: "category_id (toDisplayed sx sy b) = category_id b" for sx sy b
    by (simp add: toDisplayed_def)
  show ?thesis
    by (simp add: filteredBoxes_def renderedBoxes_def scaledBoxes_def toString_not_all
        parseInt_toString strict_eq_Num Let_def filter_map comp_def c)
qed

theorem deriveVisible_witness:
  "map id' (filteredBoxes
     ((loadedViewer [catBox ''1'' 0, catBox ''2'' 3, catBox ''3'' 0] ''all'' page)
        \<lparr>filterCategory := ''0''\<rparr>)) = [''1'', ''3'']
 \<and> map id' (renderedBoxes
     ((loadedViewer [catBox ''1'' 0, catBox ''2'' 3, catBox ''3'' 0] ''all'' page)
        \<lparr>filterCategory := ''0''\<rparr>)) = [''1'', ''3'']
 \<and> map id' (filteredBoxes
     ((loadedViewer [catBox ''1'' 0, catBox ''2'' 3, catBox ''3'' 0] ''all'' page)
        \<lparr>filterCategory := ''all''\<rparr>)) = [''1'', ''2'', ''3'']"
proof -
  have t: "toString 0 = ''0''"
    by (simp add: toString_def digits.simps)
  have k: "\<bar>0 :: int\<bar> < 2 ^ 53" by simp
  show ?thesis
    using deriveVisible
      [of "loadedViewer [catBox ''1'' 0, catBox ''2'' 3, catBox ''3'' 0] ''all'' page" 0]
    by (simp add: t catBox_def mkBox_def toDisplayed_def)
qed

subsection \<open>C6: from the pointer to natural coordinates\<close>

text \<open>
  C6: with the image mounted (and scale factors other than zero, as they are in every
  state the viewer reaches), \<open>getEventCoordinates\<close> subtracts the origin of the image
  from the pointer position and divides each axis by its scale factor; for an image of
  natural size 2000 by 3000 shown as 500 by 750 the scale effect sets both factors to
  0.25, and the pointer at (100, 150) from the image's origin maps to (400, 600).
\<close>

theorem getEventCoordinates_formula:
  assumes "imgRef st = Some img" and "scaleX st \<noteq> 0" and "scaleY st \<noteq> 0"
  shows "getEventCoordinates st e =
           (fdiv (fsub (clientX e) (bounds_left img)) (scaleX st),
            fdiv (fsub (clientY e) (bounds_top img)) (scaleY st))
       \<and> (imageLoaded st \<and> naturalWidth img = Some 2000 \<and> naturalHeight img = Some 3000
            \<and> clientWidth img = Some 500 \<and> clientHeight img = Some 750
            \<and> fsub (clientX e) (bounds_left img) = 100
            \<and> fsub (clientY e) (bounds_top img) = 150 \<longrightarrow>
              scaleX (scaleEffect st) = 1 / 4 \<and> scaleY (scaleEffect st) = 1 / 4
            \<and> getEventCoordinates (scaleEffect st) e = (400, 600))"
proof -
  have q: "fdiv 500 2000 = 1 / 4" "fdiv 750 3000 = 1 / 4"
    by (simp_all add: fdiv_def)
  have r: "fdiv 100 (1 / 4) = 400" "fdiv 150 (1 / 4) = 600"
    by (simp_all add: fdiv_def)
  show ?thesis
    using assms(1) by (simp add: getEventCoordinates_def scaleEffect_def js_or_def Let_def q r)
qed

theorem getEventCoordinates_formula_witness:
  "scaleX (loadedViewer [] ''all'' scenarioPage) = 1 / 4
 \<and> scaleY (loadedViewer [] ''all'' scenarioPage) = 1 / 4
 \<and> getEventCoordinates (loadedViewer [] ''all'' scenarioPage) \<lparr>clientX = 132, clientY = 214\<rparr>
      = (400, 600)"
proof -
  let ?st = "(initialViewer [] ''all'' (Some scenarioPage) None)\<lparr>imageLoaded := True\<rparr>"
  let ?e = "\<lparr>clientX = 132, clientY = 214\<rparr>"
  have a: "imgRef ?st = Some scenarioPage" and b: "scaleX ?st \<noteq> 0" and c: "scaleY ?st \<noteq> 0"
    by (simp_all add: initialViewer_def)
  have d: "imageLoaded ?st" by simp
  have f: "fsub (clientX ?e) (bounds_left scenarioPage) = 100"
          "fsub (clientY ?e) (bounds_top scenarioPage) = 150"
    by (simp_all add: scenarioPage_def fsub_def)
  show ?thesis
    using getEventCoordinates_formula [OF a b c, of ?e] d f
    by (simp add: loadedViewer_def scenarioPage_def)
qed

subsection \<open>C7: unavailable natural dimensions\<close>

text \<open>
  C7 says that the scale factors fall back to 1 when the natural dimensions are
  unavailable. The fallback of the code is on the natural dimension, not on the scale
  factor: an image of natural width 0 that is laid out 500 wide gets the scale
  factor 500.
\<close>

theorem scale_fallback_counterexample:
  "naturalWidth brokenPage = Some 0 \<and> scaleX (loadedViewer [] ''all'' brokenPage) \<noteq> 1"
  by (simp add: loadedViewer_def scaleEffect_def initialViewer_def brokenPage_def js_or_def
      Let_def fdiv_def)

text \<open>
  C7, as the code has it: the scale effect keeps strictly positive scale factors
  strictly positive. When it computes (image mounted and loaded) its divisors are not
  zero; an axis whose natural dimension is zero or absent gets the displayed dimension
  divided by 1 as its scale factor (1 standing for a displayed dimension that is zero
  or absent too), which is the identity scale 1 exactly when the displayed dimension
  is zero, absent or 1. When the image is not mounted or not loaded the scale factors
  keep their values.
\<close>

theorem scaleEffect_fallback:
  assumes "0 < scaleX st" and "0 < scaleY st"
  shows "0 < scaleX (scaleEffect st) \<and> 0 < scaleY (scaleEffect st)
       \<and> (imgRef st = Some img \<and> imageLoaded st \<longrightarrow>
            js_or (naturalWidth img) 1 \<noteq> 0 \<and> js_or (naturalHeight img) 1 \<noteq> 0
          \<and> ((naturalWidth img = None \<or> naturalWidth img = Some 0) \<longrightarrow>
               scaleX (scaleEffect st) = fdiv (real (js_or (clientWidth img) 1)) 1)
          \<and> ((naturalHeight img = None \<or> naturalHeight img = Some 0) \<longrightarrow>
               scaleY (scaleEffect st) = fdiv (real (js_or (clientHeight img) 1)) 1)
          \<and> ((naturalWidth img = None \<or> naturalWidth img = Some 0) \<longrightarrow>
               (scaleX (scaleEffect st) = 1 \<longleftrightarrow>
                  clientWidth img = None \<or> clientWidth img = Some 0
                    \<or> clientWidth img = Some 1))
          \<and> ((naturalHeight img = None \<or> naturalHeight img = Some 0) \<longrightarrow>
               (scaleY (scaleEffect st) = 1 \<longleftrightarrow>
                  clientHeight img = None \<or> clientHeight img = Some 0
                    \<or> clientHeight img = Some 1)))
       \<and> (imgRef st = None \<or> \<not> imageLoaded st \<longrightarrow>
            scaleX (scaleEffect st) = scaleX st \<and> scaleY (scaleEffect st) = scaleY st)"
proof -
  have pos: "0 < scaleX (scaleEffect st) \<and> 0 < scaleY (scaleEffect st)"
    using assms
    by (auto simp add: scaleEffect_def Let_def js_or_pos fdiv_pos split: option.split)
  have one: "(fdiv (real (js_or c 1)) 1 = 1) = (c = None \<or> c = Some 0 \<or> c = Some 1)" for c
    by (auto simp add: fdiv_one_eq_one js_or_def split: option.split)
  have rest: "imgRef st = Some img \<and> imageLoaded st \<longrightarrow>
            js_or (naturalWidth img) 1 \<noteq> 0 \<and> js_or (naturalHeight img) 1 \<noteq> 0
          \<and> ((naturalWidth img = None \<or> naturalWidth img = Some 0) \<longrightarrow>
               scaleX (scaleEffect st) = fdiv (real (js_or (clientWidth img) 1)) 1)
          \<and> ((naturalHeight img = None \<or> naturalHeight img = Some 0) \<longrightarrow>
               scaleY (scaleEffect st) = fdiv (real (js_or (clientHeight img) 1)) 1)
          \<and> ((naturalWidth img = None \<or> naturalWidth img = Some 0) \<longrightarrow>
               (scaleX (scaleEffect st) = 1 \<longleftrightarrow>
                  clientWidth img = None \<or> clientWidth img = Some 0
                    \<or> clientWidth img = Some 1))
          \<and> ((naturalHeight img = None \<or> naturalHeight img = Some 0) \<longrightarrow>
               (scaleY (scaleEffect st) = 1 \<longleftrightarrow>
                  clientHeight img = None \<or> clientHeight img = Some 0
                    \<or> clientHeight img = Some 1))"
  proof (intro impI)
    assume a: "imgRef st = Some img \<and> imageLoaded st"
    have d: "js_or v 1 \<noteq> 0" for v
      by (simp add: js_or_def split: option.split)
    have n: "js_or v 1 = 1" if "v = None \<or> v = Some 0" for v
      using that by (auto simp add: js_or_def)
    have sx: "scaleX (scaleEffect st)
        = fdiv (real (js_or (clientWidth img) (js_or (naturalWidth img) 1)))
            (real (js_or (naturalWidth img) 1))"
      and sy: "scaleY (scaleEffect st)
        = fdiv (real (js_or (clientHeight img) (js_or (naturalHeight img) 1)))
            (real (js_or (naturalHeight img) 1))"
      using a by (simp_all add: scaleEffect_def Let_def)
    show "js_or (naturalWidth img) 1 \<noteq> 0 \<and> js_or (naturalHeight img) 1 \<noteq> 0
          \<and> ((naturalWidth img = None \<or> naturalWidth img = Some 0) \<longrightarrow>
               scaleX (scaleEffect st) = fdiv (real (js_or (clientWidth img) 1)) 1)
          \<and> ((naturalHeight img = None \<or> naturalHeight img = Some 0) \<longrightarrow>
               scaleY (scaleEffect st) = fdiv (real (js_or (clientHeight img) 1)) 1)
          \<and> ((naturalWidth img = None \<or> naturalWidth img = Some 0) \<longrightarrow>
               (scaleX (scaleEffect st) = 1 \<longleftrightarrow>
                  clientWidth img = None \<or> clientWidth img = Some 0
                    \<or> clientWidth img = Some 1))
          \<and> ((naturalHeight img = None \<or> naturalHeight img = Some 0) \<longrightarrow>
               (scaleY (scaleEffect st) = 1 \<longleftrightarrow>
                  clientHeight img = None \<or> clientHeight img = Some 0
                    \<or> clientHeight img = Some 1))"
      using d n [of "naturalWidth img"] n [of "naturalHeight img"]
        one [of "clientWidth img"] one [of "clientHeight img"]
      by (simp add: sx sy)
  qed
  have keep: "imgRef st = None \<or> \<not> imageLoaded st \<longrightarrow>
            scaleX (scaleEffect st) = scaleX st \<and> scaleY (scaleEffect st) = scaleY st"
    by (auto simp add: scaleEffect_def split: option.split)
  show ?thesis using pos rest keep by blast
qed

theorem scaleEffect_fallback_witness:
  "0 < scaleX (loadedViewer [] ''all'' brokenPage)
 \<and> 0 < scaleY (loadedViewer [] ''all'' brokenPage)
 \<and> scaleX (loadedViewer [] ''all'' brokenPage) = 500
 \<and> scaleY (loadedViewer [] ''all'' brokenPage) = 300"
proof -
  let ?st = "(initialViewer [] ''all'' (Some brokenPage) None)\<lparr>imageLoaded := True\<rparr>"
  have p: "0 < scaleX ?st" "0 < scaleY ?st"
    by (simp_all add: initialViewer_def)
  have i: "imgRef ?st = Some brokenPage \<and> imageLoaded ?st"
    by (simp add: initialViewer_def)
  have n: "naturalWidth brokenPage = Some 0" "naturalHeight brokenPage = Some 0"
    "fdiv (real (js_or (clientWidth brokenPage) 1)) 1 = 500"
    "fdiv (real (js_or (clientHeight brokenPage) 1)) 1 = 300"
    by (simp_all add: brokenPage_def js_or_def fdiv_def)
  show ?thesis
    using scaleEffect_fallback [OF p, of brokenPage] i n
    by (simp add: loadedViewer_def)
qed

subsection \<open>C8: deleting a box\<close>

text \<open>
  C8 says that the Delete action removes exactly one entry from any store. The timer
  removes every box that is marked for removal: when box 1 was deleted less than a
  second before box 2 is deleted, the store holds both boxes before the click on
  Delete (their ids differ) and is empty after the timer.
\<close>

theorem delete_removes_marked_counterexample:
  "length (allBoxes pendingExample) = 2 \<and> distinct (map id' (allBoxes pendingExample))
 \<and> selectedBoxId pendingExample = Some ''2''
 \<and> allBoxes (deleteTimeout (deleteClick pendingExample)) = []"
  by (simp add: allBoxes_delete)
     (simp add: pendingExample_def handleBoxClick_def deleteClick_def loadedViewer_def
        scaleEffect_def initialViewer_def mkBox_def Let_def)

text \<open>
  C8, as the code has it: in a store whose ids are pairwise distinct and in which no
  box is marked for removal, deleting the selected box, whose id is in the store,
  removes exactly that entry once the timer has fired; every other box is unchanged
  and keeps its place.
\<close>

theorem delete_removes_one:
  assumes "distinct (map id' (allBoxes st))"
    and "\<forall>b \<in> set (allBoxes st). \<not> fadeOut b"
    and "selectedBoxId st = Some i" and "i \<in> id' ` set (allBoxes st)"
  shows "\<exists>ys b zs. allBoxes st = ys @ b # zs \<and> id' b = i
           \<and> allBoxes (deleteTimeout (deleteClick st)) = ys @ zs"
proof -
  have "allBoxes (deleteTimeout (deleteClick st)) = filter (\<lambda>b. id' b \<noteq> i) (allBoxes st)"
    using assms(2,3) by (simp add: allBoxes_delete cong: filter_cong)
  then show ?thesis
    using filter_distinct_remove [OF assms(1) assms(4)] by simp
qed

theorem delete_removes_one_witness:
  "\<exists>ys b zs.
     [mkBox 0 0 10 10 ''1'', mkBox 20 20 10 10 ''2'', mkBox 40 40 10 10 ''3'']
        = ys @ b # zs \<and> id' b = ''2''
   \<and> allBoxes (deleteTimeout (deleteClick
        (handleBoxClick
           (loadedViewer
              [mkBox 0 0 10 10 ''1'', mkBox 20 20 10 10 ''2'', mkBox 40 40 10 10 ''3'']
              ''all'' page)
           \<lparr>clientX = 25, clientY = 25\<rparr> ''2''))) = ys @ zs"
proof -
  let ?bs = "[mkBox 0 0 10 10 ''1'', mkBox 20 20 10 10 ''2'', mkBox 40 40 10 10 ''3'']"
  let ?st = "handleBoxClick (loadedViewer ?bs ''all'' page) \<lparr>clientX = 25, clientY = 25\<rparr> ''2''"
  have bs: "allBoxes ?st = ?bs" and s: "selectedBoxId ?st = Some ''2''"
    by (simp_all add: handleBoxClick_def loadedViewer_def scaleEffect_def initialViewer_def
        Let_def)
  have d: "distinct (map id' (allBoxes ?st))" and f: "\<forall>b \<in> set (allBoxes ?st). \<not> fadeOut b"
    and m: "''2'' \<in> id' ` set (allBoxes ?st)"
    by (simp_all only: bs) simp_all
  show ?thesis
    using delete_removes_one [OF d f s m] by (simp only: bs)
qed

subsection \<open>C9: unique ids\<close>

text \<open>
  C9 says that no two boxes of the store share an id. The id of a box made from a
  prediction is \<open>pred-\<close> followed by the prediction's \<open>image_id\<close>, the identifier of the
  page: two predictions for the same page give two boxes with the same id.
\<close>

theorem predictions_share_id:
  "map id' (processedPredictions clock
      [pagePrediction (0, 0, 10, 10), pagePrediction (20, 20, 30, 30)])
     = [''pred-7'', ''pred-7'']"
proof -
  have t: "toString 7 = ''7''"
    by (simp add: toString_def digits.simps)
  have u: "[0..<2] = [0, 1]"
    by (simp add: upt_rec)
  show ?thesis
    by (simp add: processedPredictions_def processPrediction_def pagePrediction_def Let_def t u)
qed

subsection \<open>C10: no image element\<close>

text \<open>
  C10: when the image element is absent, \<open>getEventCoordinates\<close> returns the
  coordinates (0, 0) for every pointer event.
\<close>

theorem getEventCoordinates_no_image:
  "imgRef st = None \<Longrightarrow> getEventCoordinates st e = (0, 0)"
  by (simp add: getEventCoordinates_def)

theorem getEventCoordinates_no_image_witness:
  "imgRef (initialViewer [] ''all'' None None) = None \<and>
   getEventCoordinates (initialViewer [] ''all'' None None) \<lparr>clientX = 5, clientY = 7\<rparr> = (0, 0)"
  using getEventCoordinates_no_image
    [of "initialViewer [] ''all'' None None" "\<lparr>clientX = 5, clientY = 7\<rparr>"]
  by (simp add: initialViewer_def)

end
